theory Spec2Isabelle
  imports Main "HOL-Library.Multiset"
begin

section \<open>JavaScript values used by routes/index.js\<close>

subsection \<open>Numbers\<close>

text \<open>
  Round numbers are JavaScript numbers, that is IEEE 754 doubles. The handlers only ever
  produce them from the literal \<open>1\<close>, from \<open>parseInt\<close>, and by adding or subtracting
  one, so a round number is NaN, an infinity, or an integer that is a double. \<open>Num n\<close> is
  the double of the integer \<open>n\<close>. Zero and minus zero are one value here: the handlers
  compare a round number with 1, add to it, and use it as a property key, and none of
  these tells the two apart.
\<close>

datatype jsnum = NaN | PosInf | NegInf | Num int

text \<open>The number of binary digits of a natural number.\<close>

fun bitLength :: "nat \<Rightarrow> nat" where
  "bitLength n = (if n = 0 then 0 else Suc (bitLength (n div 2)))"

declare bitLength.simps [simp del]

text \<open>
  Rounding to the nearest double, ties to the even significand. A double has a
  significand of 53 bits, so a natural number of at most 53 bits is itself; a longer one
  keeps its leading 53 bits \<open>q\<close>, and the \<open>e\<close> bits \<open>r\<close> below them decide whether \<open>q\<close> is
  rounded up.
\<close>

definition roundNat :: "nat \<Rightarrow> nat" where
  "roundNat x =
     (let e = bitLength x - 53;
          q = x div 2 ^ e;
          r = x mod 2 ^ e;
          m = (if 2 ^ e < 2 * r \<or> (2 * r = 2 ^ e \<and> odd q) then q + 1 else q)
      in m * 2 ^ e)"

text \<open>
  The largest double, and the least magnitude that rounds to an infinity: half way from
  the largest double to \<open>2 ^ 1024\<close>.
\<close>

definition maxDouble :: nat where
  "maxDouble = (2 ^ 53 - 1) * 2 ^ 971"

definition overflowBound :: nat where
  "overflowBound = (2 ^ 53 - 1) * 2 ^ 971 + 2 ^ 970"

text \<open>The double of an integer: the result of an operation whose exact value it is.\<close>

definition roundDouble :: "int \<Rightarrow> jsnum" where
  "roundDouble i =
     (if overflowBound \<le> nat \<bar>i\<bar> then (if i < 0 then NegInf else PosInf)
      else Num (sgn i * int (roundNat (nat \<bar>i\<bar>))))"

text \<open>
  \<open>x + 1\<close>, \<open>x - 1\<close> and \<open>x++\<close> on a number: the exact sum, rounded. NaN and the
  infinities stay as they are.
\<close>

fun js_plus :: "jsnum \<Rightarrow> int \<Rightarrow> jsnum" where
  "js_plus (Num n) k = roundDouble (n + k)"
| "js_plus r k = r"

subsection \<open>Strings\<close>

text \<open>
  A string is modelled by its UTF-8 bytes. A field of \<open>req.body\<close> or \<open>req.query\<close> that a
  form or a query string sends is a string, or \<open>undefined\<close> (\<open>None\<close>) when it is not sent.
  Such a value is truthy when it is a non-empty string.
\<close>

definition truthy :: "string option \<Rightarrow> bool" where
  "truthy v = (case v of None \<Rightarrow> False | Some s \<Rightarrow> s \<noteq> [])"

text \<open>\<open>v || dflt\<close> on such a value.\<close>

definition orElse :: "string option \<Rightarrow> string \<Rightarrow> string" where
  "orElse v dflt = (case v of None \<Rightarrow> dflt | Some s \<Rightarrow> if s = [] then dflt else s)"

subsection \<open>parseInt\<close>

text \<open>
  \<open>parseInt(string)\<close> with no radix, after ECMA-262: leading white space is dropped, one
  sign is read, a prefix \<open>0x\<close> or \<open>0X\<close> selects radix 16 (radix 10 otherwise), and the
  longest prefix of digits of that radix is the value; with no digit the result is NaN.
  The result is the double nearest to the integer that the digits denote, an infinity
  when that integer is beyond the doubles.

  White space is what \<open>StrWhiteSpaceChar\<close> admits, each character in UTF-8: TAB, LF, VT,
  FF, CR, SPACE, U+00A0, U+1680, U+2000 to U+200A, U+2028, U+2029, U+202F, U+205F, U+3000
  and U+FEFF.
\<close>

definition whiteSpaceChars :: "string list" where
  "whiteSpaceChars =
     [[CHR 0x09], [CHR 0x0A], [CHR 0x0B], [CHR 0x0C], [CHR 0x0D], [CHR 0x20],
      [CHR 0xC2, CHR 0xA0],
      [CHR 0xE1, CHR 0x9A, CHR 0x80],
      [CHR 0xE2, CHR 0x80, CHR 0x80], [CHR 0xE2, CHR 0x80, CHR 0x81],
      [CHR 0xE2, CHR 0x80, CHR 0x82], [CHR 0xE2, CHR 0x80, CHR 0x83],
      [CHR 0xE2, CHR 0x80, CHR 0x84], [CHR 0xE2, CHR 0x80, CHR 0x85],
      [CHR 0xE2, CHR 0x80, CHR 0x86], [CHR 0xE2, CHR 0x80, CHR 0x87],
      [CHR 0xE2, CHR 0x80, CHR 0x88], [CHR 0xE2, CHR 0x80, CHR 0x89],
      [CHR 0xE2, CHR 0x80, CHR 0x8A],
      [CHR 0xE2, CHR 0x80, CHR 0xA8], [CHR 0xE2, CHR 0x80, CHR 0xA9],
      [CHR 0xE2, CHR 0x80, CHR 0xAF],
      [CHR 0xE2, CHR 0x81, CHR 0x9F],
      [CHR 0xE3, CHR 0x80, CHR 0x80],
      [CHR 0xEF, CHR 0xBB, CHR 0xBF]]"

text \<open>
  The number of bytes of the white space character that a string starts with, 0 when it
  starts with none.
\<close>

fun whiteSpaceAt :: "string list \<Rightarrow> string \<Rightarrow> nat" where
  "whiteSpaceAt [] s = 0"
| "whiteSpaceAt (w # ws) s = (if take (length w) s = w then length w else whiteSpaceAt ws s)"

fun trimStart :: "string \<Rightarrow> string" where
  "trimStart [] = []"
| "trimStart (c # cs) =
     (let k = whiteSpaceAt whiteSpaceChars (c # cs)
      in if k = 0 then c # cs else trimStart (drop (k - 1) cs))"

definition digitValue :: "char \<Rightarrow> nat option" where
  "digitValue c =
     (let n = (of_char c :: nat)
      in if 48 \<le> n \<and> n \<le> 57 then Some (n - 48)
         else if 97 \<le> n \<and> n \<le> 122 then Some (n - 87)
         else if 65 \<le> n \<and> n \<le> 90 then Some (n - 55)
         else None)"

definition radixDigit :: "nat \<Rightarrow> char \<Rightarrow> bool" where
  "radixDigit R c = (case digitValue c of None \<Rightarrow> False | Some v \<Rightarrow> v < R)"

fun digitsValue :: "nat \<Rightarrow> nat \<Rightarrow> string \<Rightarrow> nat" where
  "digitsValue R acc [] = acc"
| "digitsValue R acc (c # cs) =
     digitsValue R (acc * R + (case digitValue c of None \<Rightarrow> 0 | Some v \<Rightarrow> v)) cs"

definition parseInt :: "string \<Rightarrow> jsnum" where
  "parseInt inputString =
     (let S = trimStart inputString;
          sign = (if take 1 S = ''-'' then - 1 else (1::int));
          S1 = (if take 1 S = ''+'' \<or> take 1 S = ''-'' then drop 1 S else S);
          hex = (take 2 S1 = ''0x'' \<or> take 2 S1 = ''0X'');
          R = (if hex then 16 else 10);
          S2 = (if hex then drop 2 S1 else S1);
          Z = takeWhile (radixDigit R) S2
      in if Z = [] then NaN else roundDouble (sign * int (digitsValue R 0 Z)))"

section \<open>The data model\<close>

text \<open>
  A project as \<open>loadData\<close> and \<open>createProject\<close> build it. The field \<open>id\<close> is named
  \<open>pid\<close>. \<open>filePath\<close> and \<open>xSelected\<close> are optional because \<open>updateSettings\<close> stores
  the request's fields as they come, \<open>undefined\<close> included. \<open>roundSelections\<close> is the
  object keyed by round number. A number used as a property key is its string, which is
  one key per number, so the keys are the numbers themselves; a property under any other
  key is one that no handler reads or writes.
\<close>

record project =
  pid :: string
  name :: string
  filePath :: "string option"
  xSelected :: "string option"
  currentRound :: jsnum
  roundSelections :: "jsnum \<rightharpoonup> string list"
  lastFileName :: string

record appData =
  activeProjectId :: string
  projects :: "project list"

text \<open>
  The default state of \<open>loadData\<close>, returned when the projects file does not exist or
  cannot be read. The non-ASCII literals of the source are written as their UTF-8 bytes.
\<close>

definition defaultProject :: project where
  "defaultProject =
     \<lparr> pid = ''default'',
       name = [CHR 0xE9, CHR 0xBB, CHR 0x98, CHR 0xE8, CHR 0xAE, CHR 0xA4,
               CHR 0xE9, CHR 0xA1, CHR 0xB9, CHR 0xE7, CHR 0x9B, CHR 0xAE],
       filePath = Some (''C:'' @ [CHR 0x5C] @ ''Users'' @ [CHR 0x5C] @ ''admin'' @ [CHR 0x5C]
                   @ ''Documents'' @ [CHR 0x5C] @ ''MuMu''
                   @ [CHR 0xE5, CHR 0x85, CHR 0xB1, CHR 0xE4, CHR 0xBA, CHR 0xAB,
                      CHR 0xE6, CHR 0x96, CHR 0x87, CHR 0xE4, CHR 0xBB, CHR 0xB6,
                      CHR 0xE5, CHR 0xA4, CHR 0xB9]
                   @ [CHR 0x5C] @ ''Pictures'' @ [CHR 0x5C] @ ''Telegram''),
       xSelected = Some ([CHR 0x58, CHR 0xE9, CHR 0x80, CHR 0x89, CHR 0xE9, CHR 0xA1, CHR 0xB9,
                          CHR 0xE5, CHR 0x86, CHR 0x85, CHR 0xE5, CHR 0xAE, CHR 0xB9]),
       currentRound = Num 1,
       roundSelections = Map.empty,
       lastFileName = [] \<rparr>"

definition loadData_default :: appData where
  "loadData_default = \<lparr> activeProjectId = ''default'', projects = [defaultProject] \<rparr>"

text \<open>\<open>project.roundSelections[k] || []\<close>: an array, even an empty one, is truthy.\<close>

definition selectionsAt :: "project \<Rightarrow> jsnum \<Rightarrow> string list" where
  "selectionsAt p k = (case roundSelections p k of None \<Rightarrow> [] | Some xs \<Rightarrow> xs)"

text \<open>
  \<open>if (!project.roundSelections[project.currentRound])
     project.roundSelections[project.currentRound] = [];\<close>
\<close>

definition ensureCurrent :: "project \<Rightarrow> project" where
  "ensureCurrent p =
     (if roundSelections p (currentRound p) = None
      then p\<lparr>roundSelections := (roundSelections p)(currentRound p \<mapsto> [])\<rparr>
      else p)"

section \<open>getActiveProject\<close>

text \<open>
  \<open>Array.prototype.find\<close> returns the first element that satisfies the predicate. The
  handlers mutate the project they get through that reference, so the model returns the
  element's position in \<open>appData.projects\<close>.
\<close>

fun findIndex :: "('a \<Rightarrow> bool) \<Rightarrow> 'a list \<Rightarrow> nat option" where
  "findIndex P [] = None"
| "findIndex P (x # xs) = (if P x then Some 0 else map_option Suc (findIndex P xs))"

definition getActiveProject :: "appData \<Rightarrow> nat option \<times> appData" where
  "getActiveProject d =
     (case findIndex (\<lambda>p. pid p = activeProjectId d) (projects d) of
        Some i \<Rightarrow> (Some i, d)
      | None \<Rightarrow>
          (if length (projects d) > 0
           then (Some 0, d\<lparr>activeProjectId := pid (projects d ! 0)\<rparr>)
           else (None, d)))"

text \<open>The project object that \<open>getActiveProject()\<close> returns, if any.\<close>

definition activeProject :: "appData \<Rightarrow> project option" where
  "activeProject d =
     (case getActiveProject d of
        (None, d1) \<Rightarrow> None
      | (Some i, d1) \<Rightarrow> Some (projects d1 ! i))"

text \<open>Writing the mutated project back at its position.\<close>

definition putProject :: "nat \<Rightarrow> project \<Rightarrow> appData \<Rightarrow> appData" where
  "putProject i p d = d\<lparr>projects := (projects d)[i := p]\<rparr>"

section \<open>Responses\<close>

text \<open>
  The body of a \<open>res.json\<close> call: \<open>success\<close> is always present, the other properties
  only in some replies.
\<close>

record json_reply =
  success :: bool
  selected :: "bool option"
  requireConfirmation :: "bool option"
  message :: "string option"

definition reply :: "bool \<Rightarrow> json_reply" where
  "reply ok = \<lparr> success = ok, selected = None, requireConfirmation = None, message = None \<rparr>"

text \<open>
  The locals that \<open>router.get('/')\<close> hands to the template. \<open>maxRound\<close> and \<open>currentMode\<close>
  are display values computed from the same state and the query; they are left out.
\<close>

record index_view =
  view_project :: "project option"
  view_projects :: "project list"
  view_fileName :: string
  view_imageList :: "string list"
  view_currentRoundSelections :: "string list"

text \<open>
  \<open>ServerError\<close> is the reply of Express when a handler throws: the request ends there,
  with the mutations made so far kept in \<open>appData\<close>.
\<close>

datatype response =
    Render index_view
  | Redirect string
  | Json json_reply
  | ServerError

section \<open>The handlers\<close>

text \<open>
  Each handler takes the module's \<open>appData\<close> and returns it as the handler leaves it,
  with the response. \<open>saveData\<close> writes that state to disk and changes nothing in memory.
\<close>

subsection \<open>GET /\<close>

text \<open>
  \<open>getImagesFromDir\<close> reads the file system; its result for a directory is the parameter
  \<open>imgs\<close>. The candidate list of the page:
\<close>

definition imageListOf :: "(string option \<Rightarrow> string list) \<Rightarrow> project \<Rightarrow> string list" where
  "imageListOf imgs p =
     (if currentRound p = Num 1 then imgs (filePath p)
      else selectionsAt p (js_plus (currentRound p) (- 1)))"

text \<open>
  The last block of the handler: the file shown and the project's \<open>lastFileName\<close>.
  It returns the pair of both.
\<close>

definition pickFile :: "string list \<Rightarrow> project \<Rightarrow> string \<times> project" where
  "pickFile imageList p =
     (let fileName = lastFileName p
      in if (fileName = [] \<or> fileName \<notin> set imageList) \<and> length imageList > 0
         then (imageList ! 0, p\<lparr>lastFileName := imageList ! 0\<rparr>)
         else if length imageList = 0 then ([], p)
         else (fileName, p))"

definition getIndex ::
  "(string option \<Rightarrow> string list) \<Rightarrow> string option \<Rightarrow> appData \<Rightarrow> appData \<times> response" where
  "getIndex imgs file d =
     (case getActiveProject d of
        (None, d1) \<Rightarrow>
          (d1, Render \<lparr> view_project = None, view_projects = projects d1, view_fileName = [],
                        view_imageList = [], view_currentRoundSelections = [] \<rparr>)
      | (Some i, d1) \<Rightarrow>
          (let p = projects d1 ! i;
               p1 = (if truthy file then p\<lparr>lastFileName := the file\<rparr> else p);
               imageList = imageListOf imgs p1;
               p2 = ensureCurrent p1;
               currentRoundSelections = selectionsAt p2 (currentRound p2);
               (fileName, p3) = pickFile imageList p2;
               d2 = putProject i p3 d1
           in (d2, Render \<lparr> view_project = Some p3, view_projects = projects d2,
                            view_fileName = fileName, view_imageList = imageList,
                            view_currentRoundSelections = currentRoundSelections \<rparr>)))"

subsection \<open>GET /image and POST /finishRound\<close>

text \<open>
  Both read the active project and touch the file system only; of \<open>appData\<close> they change
  what \<open>getActiveProject\<close> changes.
\<close>

definition getImage :: "appData \<Rightarrow> appData" where
  "getImage d = snd (getActiveProject d)"

definition finishRound :: "appData \<Rightarrow> appData" where
  "finishRound d = snd (getActiveProject d)"

subsection \<open>Settings and project management\<close>

definition updateSettings :: "string option \<Rightarrow> string option \<Rightarrow> appData \<Rightarrow> appData \<times> response" where
  "updateSettings xSel fPath d =
     (case getActiveProject d of
        (None, d1) \<Rightarrow> (d1, Redirect ''/'')
      | (Some i, d1) \<Rightarrow>
          (putProject i ((projects d1 ! i)\<lparr>xSelected := xSel, filePath := fPath\<rparr>) d1,
           Redirect ''/''))"

text \<open>\<open>crypto.randomUUID()\<close> is the parameter \<open>uuid\<close>.\<close>

definition createProject ::
  "string \<Rightarrow> string option \<Rightarrow> string option \<Rightarrow> appData \<Rightarrow> appData \<times> response" where
  "createProject uuid nm fPath d =
     (let newProject =
            \<lparr> pid = uuid,
              name = orElse nm [CHR 0xE6, CHR 0x96, CHR 0xB0, CHR 0xE9, CHR 0xA1, CHR 0xB9,
                                CHR 0xE7, CHR 0x9B, CHR 0xAE],
              filePath = Some (orElse fPath []),
              xSelected = Some [],
              currentRound = Num 1,
              roundSelections = Map.empty,
              lastFileName = [] \<rparr>
      in (d\<lparr>projects := projects d @ [newProject], activeProjectId := uuid\<rparr>, Redirect ''/''))"

definition switchProject :: "string option \<Rightarrow> appData \<Rightarrow> appData \<times> response" where
  "switchProject projectId d =
     (case projectId of
        None \<Rightarrow> (d, Redirect ''/'')
      | Some q \<Rightarrow>
          (if findIndex (\<lambda>p. pid p = q) (projects d) \<noteq> None
           then (d\<lparr>activeProjectId := q\<rparr>, Redirect ''/'')
           else (d, Redirect ''/'')))"

definition switchRound :: "string option \<Rightarrow> appData \<Rightarrow> appData \<times> response" where
  "switchRound roundStr d =
     (case getActiveProject d of
        (None, d1) \<Rightarrow> (d1, Redirect ''/'')
      | (Some i, d1) \<Rightarrow>
          (if truthy roundStr
           then (putProject i ((projects d1 ! i)\<lparr>currentRound := parseInt (the roundStr),
                                                 lastFileName := []\<rparr>) d1,
                 Redirect ''/'')
           else (d1, Redirect ''/'')))"

text \<open>
  \<open>deleteProject\<close>: when the filter leaves no project and the deleted id was the active
  one, \<open>appData.projects[0].id\<close> throws a TypeError after \<open>appData.projects\<close> has been
  assigned.
\<close>

definition deleteProject :: "string option \<Rightarrow> appData \<Rightarrow> appData \<times> response" where
  "deleteProject projectId d =
     (if length (projects d) \<le> 1 then (d, Redirect ''/'')
      else
        (let d1 = d\<lparr>projects := filter (\<lambda>p. Some (pid p) \<noteq> projectId) (projects d)\<rparr>
         in if Some (activeProjectId d1) = projectId
            then (case projects d1 of
                    [] \<Rightarrow> (d1, ServerError)
                  | p0 # _ \<Rightarrow> (d1\<lparr>activeProjectId := pid p0\<rparr>, Redirect ''/''))
            else (d1, Redirect ''/'')))"

subsection \<open>Selection logic\<close>

text \<open>The body of \<open>toggleSelection\<close> on the active project, for a truthy \<open>fileName\<close>.\<close>

definition toggleIn :: "string \<Rightarrow> project \<Rightarrow> project" where
  "toggleIn fileName p =
     (let p1 = ensureCurrent p;
          selections = selectionsAt p1 (currentRound p1)
      in if fileName \<in> set selections
         then p1\<lparr>roundSelections :=
                   (roundSelections p1)(currentRound p1 \<mapsto> filter (\<lambda>f. f \<noteq> fileName) selections)\<rparr>
         else p1\<lparr>roundSelections :=
                   (roundSelections p1)(currentRound p1 \<mapsto> selections @ [fileName])\<rparr>)"

definition toggleSelection :: "string option \<Rightarrow> appData \<Rightarrow> appData \<times> response" where
  "toggleSelection fileName d =
     (case getActiveProject d of
        (None, d1) \<Rightarrow> (d1, Json (reply False))
      | (Some i, d1) \<Rightarrow>
          (if \<not> truthy fileName then (d1, Json (reply False))
           else
             (let p' = toggleIn (the fileName) (projects d1 ! i)
              in (putProject i p' d1,
                  Json ((reply True)\<lparr>selected :=
                          Some (the fileName \<in> set (selectionsAt p' (currentRound p')))\<rparr>)))))"

text \<open>
  The body of \<open>nextRound\<close> on the active project; \<open>force\<close> is the truthiness of
  \<open>req.body.force\<close>. A reply with \<open>success: false\<close> comes with the project as it was.
\<close>

definition advance :: "bool \<Rightarrow> project \<Rightarrow> project \<times> json_reply" where
  "advance force p =
     (let currentSelections = selectionsAt p (currentRound p)
      in if length currentSelections = 0
         then (p, (reply False)\<lparr>message := Some ''No images selected''\<rparr>)
         else
           (let nextR = js_plus (currentRound p) 1
            in if length (selectionsAt p nextR) > 0 \<and> \<not> force
               then (p, (reply False)\<lparr>requireConfirmation := Some True,
                          message := Some ''Next round already has selections. Overwrite?''\<rparr>)
               else
                 (let p1 = (if force \<or> length (selectionsAt p nextR) > 0
                            then p\<lparr>roundSelections := (roundSelections p)(nextR \<mapsto> [])\<rparr>
                            else p)
                  in (p1\<lparr>currentRound := js_plus (currentRound p1) 1, lastFileName := []\<rparr>,
                      reply True))))"

definition nextRound :: "bool \<Rightarrow> appData \<Rightarrow> appData \<times> response" where
  "nextRound force d =
     (case getActiveProject d of
        (None, d1) \<Rightarrow> (d1, Json (reply False))
      | (Some i, d1) \<Rightarrow>
          (let (p', r) = advance force (projects d1 ! i)
           in (putProject i p' d1, Json r)))"

section \<open>Sequences of requests\<close>

datatype request =
    GetIndex "string option \<Rightarrow> string list" "string option"
  | GetImage
  | UpdateSettings "string option" "string option"
  | CreateProject string "string option" "string option"
  | SwitchProject "string option"
  | SwitchRound "string option"
  | DeleteProject "string option"
  | ToggleSelection "string option"
  | FinishRound
  | NextRound bool

fun handle :: "request \<Rightarrow> appData \<Rightarrow> appData" where
  "handle (GetIndex imgs file) d = fst (getIndex imgs file d)"
| "handle GetImage d = getImage d"
| "handle (UpdateSettings xSel fPath) d = fst (updateSettings xSel fPath d)"
| "handle (CreateProject uuid nm fPath) d = fst (createProject uuid nm fPath d)"
| "handle (SwitchProject projectId) d = fst (switchProject projectId d)"
| "handle (SwitchRound roundStr) d = fst (switchRound roundStr d)"
| "handle (DeleteProject projectId) d = fst (deleteProject projectId d)"
| "handle (ToggleSelection fileName) d = fst (toggleSelection fileName d)"
| "handle FinishRound d = finishRound d"
| "handle (NextRound force) d = fst (nextRound force d)"

fun run :: "request list \<Rightarrow> appData \<Rightarrow> appData" where
  "run [] d = d"
| "run (r # rs) d = run rs (handle r d)"

section \<open>Invariants of the document\<close>

text \<open>
  A round number that is an integer, at least 1: not NaN, not an infinity, and, as every
  double, at most the largest double.
\<close>

definition roundOk :: "jsnum \<Rightarrow> bool" where
  "roundOk r = (case r of Num n \<Rightarrow> 1 \<le> n \<and> n \<le> int maxDouble | _ \<Rightarrow> False)"

definition roundsOk :: "appData \<Rightarrow> bool" where
  "roundsOk d = list_all (\<lambda>p. roundOk (currentRound p)) (projects d)"

text \<open>
  A request whose round, if it is a \<open>switchRound\<close> that the handler acts on, parses to an
  integer at least 1.
\<close>

fun roundRequestOk :: "request \<Rightarrow> bool" where
  "roundRequestOk (SwitchRound roundStr) = (\<not> truthy roundStr \<or> roundOk (parseInt (the roundStr)))"
| "roundRequestOk r = True"

text \<open>At least one project, and no two projects with the same id.\<close>

definition idsOk :: "appData \<Rightarrow> bool" where
  "idsOk d = (projects d \<noteq> [] \<and> distinct (map pid (projects d)))"

text \<open>
  \<open>crypto.randomUUID()\<close> returns an id that no project has: along a sequence of
  requests, each \<open>createProject\<close> comes with an id that is new in the state it acts on.
\<close>

fun freshIds :: "request list \<Rightarrow> appData \<Rightarrow> bool" where
  "freshIds [] d = True"
| "freshIds (CreateProject uuid nm fPath # rs) d =
     (uuid \<notin> set (map pid (projects d)) \<and> freshIds rs (handle (CreateProject uuid nm fPath) d))"
| "freshIds (r # rs) d = freshIds rs (handle r d)"

section \<open>Example states\<close>

text \<open>
  A project at round 2 that already holds selections for round 3, a project at round 1
  with one image kept, a document whose active id matches no project, and a directory
  listing.
\<close>

definition projectB :: project where
  "projectB = defaultProject\<lparr>currentRound := Num 2,
      roundSelections := [Num 1 \<mapsto> [''c.png'', ''d.png''], Num 2 \<mapsto> [''c.png''],
                          Num 3 \<mapsto> [''x.png'']]\<rparr>"

definition docB :: appData where
  "docB = \<lparr> activeProjectId = ''default'', projects = [projectB] \<rparr>"

definition projectA :: project where
  "projectA = defaultProject\<lparr>roundSelections := [Num 1 \<mapsto> [''a.png'']]\<rparr>"

definition docA :: appData where
  "docA = \<lparr> activeProjectId = ''stale-id'', projects = [projectA] \<rparr>"

definition imgsAB :: "string option \<Rightarrow> string list" where
  "imgsAB dir = [''a.png'', ''b.jpg'']"

definition projectC :: project where
  "projectC = defaultProject\<lparr>roundSelections := [Num 1 \<mapsto> [''a.png'', ''b.jpg'']]\<rparr>"

definition docC :: appData where
  "docC = \<lparr> activeProjectId = ''default'', projects = [projectC] \<rparr>"

text \<open>
  Sequences of requests. In \<open>requestsA\<close> the second \<open>switchRound\<close> sends a no-break
  space before the digit. \<open>requestsEdge\<close> goes to round \<open>2 ^ 53\<close> and keeps one image
  there, \<open>requestsBeyond\<close> then goes on to round \<open>2 ^ 53 + 2\<close>, and \<open>requestsNaN\<close> keeps
  one image in a round that is not a number.
\<close>

definition requestsA :: "request list" where
  "requestsA = [ToggleSelection (Some ''a.png''), NextRound False, SwitchRound (Some ''5''),
                SwitchRound (Some ([CHR 0xC2, CHR 0xA0] @ ''7'')), SwitchRound None,
                CreateProject ''u1'' None None, DeleteProject (Some ''default'')]"


definition requestsBeyond :: "request list" where
  "requestsBeyond = [SwitchRound (Some ''9007199254740992''), ToggleSelection (Some ''a.png''),
                     SwitchRound (Some ''9007199254740994'')]"


text \<open>The candidate list that a rendered page shows.\<close>

definition imageListShown :: "response \<Rightarrow> string list" where
  "imageListShown r = (case r of Render v \<Rightarrow> view_imageList v | _ \<Rightarrow> [])"

definition requestsB :: "request list" where
  "requestsB = [CreateProject ''u1'' (Some ''second'') None, DeleteProject (Some ''default''),
                DeleteProject (Some ''u1'')]"

section \<open>Basic facts\<close>

subsection \<open>Rounding to a double\<close>

lemma bitLength_le: "n < 2 ^ k \<Longrightarrow> bitLength n \<le> k"
proof (induction k arbitrary: n)
  case 0
  then show ?case by (simp add: bitLength.simps)
next
  case (Suc k)
  show ?case
  proof (cases "n = 0")
    case True
    then show ?thesis by (simp add: bitLength.simps)
  next
    case False
    from Suc.prems have "n div 2 < 2 ^ k" by simp
    from Suc.IH [OF this] False show ?thesis
      by (subst bitLength.simps) simp
  qed
qed

lemma bitLength_upper: "n < 2 ^ bitLength n"
proof (induction n rule: bitLength.induct)
  case (1 n)
  show ?case
  proof (cases "n = 0")
    case True
    then show ?thesis by simp
  next
    case False
    with 1 have "n div 2 < 2 ^ bitLength (n div 2)" by simp
    then have "n < 2 * 2 ^ bitLength (n div 2)" by linarith
    with False show ?thesis by (subst bitLength.simps) simp
  qed
qed

lemma bitLength_lower: "0 < n \<Longrightarrow> 2 ^ (bitLength n - 1) \<le> n"
proof (induction n rule: bitLength.induct)
  case (1 n)
  show ?case
  proof (cases "n div 2 = 0")
    case True
    with 1 have "bitLength n = 1"
      by (subst bitLength.simps) (simp add: bitLength.simps)
    with 1 show ?thesis by simp
  next
    case False
    with 1 have ih: "2 ^ (bitLength (n div 2) - 1) \<le> n div 2" by simp
    from False have pos: "0 < bitLength (n div 2)"
      by (subst bitLength.simps) simp
    from 1 have "bitLength n = Suc (bitLength (n div 2))"
      by (subst bitLength.simps) simp
    then have "2 ^ (bitLength n - 1) = (2::nat) * 2 ^ (bitLength (n div 2) - 1)"
      using pos by (cases "bitLength (n div 2)") simp_all
    with ih show ?thesis by linarith
  qed
qed

lemma roundNat_small: "x < 2 ^ 53 \<Longrightarrow> roundNat x = x"
  using bitLength_le [of x 53] by (simp add: roundNat_def)

lemma bitLength_2_53: "bitLength 9007199254740992 = 54"
  by (simp add: bitLength.simps)

lemma roundNat_exact: "x \<le> 2 ^ 53 \<Longrightarrow> roundNat x = x"
proof (cases "x < 2 ^ 53")
  case True
  then show ?thesis by (rule roundNat_small)
next
  case False
  assume "x \<le> 2 ^ 53"
  with False have "x = 9007199254740992" by simp
  then show ?thesis by (simp add: roundNat_def bitLength_2_53)
qed

lemma roundDouble_exact: "\<bar>i\<bar> \<le> 2 ^ 53 \<Longrightarrow> roundDouble i = Num i"
proof -
  assume a: "\<bar>i\<bar> \<le> 2 ^ 53"
  then have n: "nat \<bar>i\<bar> \<le> 2 ^ 53" by simp
  have "(2::nat) ^ 53 < overflowBound" by (simp add: overflowBound_def)
  with n have "\<not> overflowBound \<le> nat \<bar>i\<bar>" by linarith
  moreover have "sgn i * int (roundNat (nat \<bar>i\<bar>)) = i"
    using roundNat_exact [OF n] by (simp add: sgn_if)
  ultimately show ?thesis by (simp add: roundDouble_def)
qed

lemma roundNat_ge: "x div 2 ^ (bitLength x - 53) * 2 ^ (bitLength x - 53) \<le> roundNat x"
  by (simp add: roundNat_def Let_def)

lemma roundNat_pos: "0 < x \<Longrightarrow> 0 < roundNat x"
proof -
  assume x: "0 < x"
  define e where "e = bitLength x - 53"
  have "(2::nat) ^ e \<le> 2 ^ (bitLength x - 1)"
    by (rule power_increasing) (simp_all add: e_def)
  also have "\<dots> \<le> x" by (rule bitLength_lower [OF x])
  finally have "0 < x div 2 ^ e" by (simp add: div_greater_zero_iff)
  then have "0 < x div 2 ^ e * 2 ^ e" by simp
  with roundNat_ge [of x] show ?thesis unfolding e_def by linarith
qed

lemma roundNat_le_max:
  assumes "x < overflowBound"
  shows "roundNat x \<le> maxDouble"
proof -
  define e where "e = bitLength x - 53"
  define q where "q = x div 2 ^ e"
  define r where "r = x mod 2 ^ e"
  define m where "m = (if 2 ^ e < 2 * r \<or> (2 * r = 2 ^ e \<and> odd q) then q + 1 else q)"
  have rn: "roundNat x = m * 2 ^ e"
    by (simp add: roundNat_def Let_def e_def q_def r_def m_def)
  have ob: "overflowBound < 2 ^ 1024"
    by (simp add: overflowBound_def)
  with assms have "x < 2 ^ 1024" by linarith
  then have bl: "bitLength x \<le> 1024" by (rule bitLength_le)
  then have e: "e \<le> 971" by (simp add: e_def)
  have "x < 2 ^ (e + 53)"
  proof -
    have "bitLength x \<le> e + 53" by (simp add: e_def)
    then have "(2::nat) ^ bitLength x \<le> 2 ^ (e + 53)"
      by (intro power_increasing) simp_all
    with bitLength_upper [of x] show ?thesis by linarith
  qed
  then have "x < 2 ^ 53 * 2 ^ e" by (simp add: power_add mult.commute)
  then have q53: "q < 2 ^ 53"
    by (simp add: q_def less_mult_imp_div_less)
  show ?thesis
  proof (cases "e = 971")
    case False
    with e have e970: "e \<le> 970" by simp
    have "m \<le> 2 ^ 53" using q53 by (simp add: m_def)
    then have "m * 2 ^ e \<le> 2 ^ 53 * 2 ^ e" by simp
    also have "\<dots> \<le> 2 ^ 53 * (2::nat) ^ 970"
      using e970 by (intro mult_left_mono power_increasing) simp_all
    also have "\<dots> \<le> maxDouble" by (simp add: maxDouble_def)
    finally show ?thesis using rn by simp
  next
    case True
    have x: "x = q * 2 ^ 971 + r"
      using True by (simp add: q_def r_def)
    have "m \<le> 2 ^ 53 - 1"
    proof (cases "q = 2 ^ 53 - 1")
      case q: True
      from assms x q have "r < 2 ^ 970"
        by (simp add: overflowBound_def)
      then have "2 * r < 2 ^ 971" by simp
      with True q show ?thesis by (simp add: m_def)
    next
      case False
      with q53 have "q + 1 \<le> 2 ^ 53 - 1" by simp
      then show ?thesis by (simp add: m_def)
    qed
    then have "m * 2 ^ 971 \<le> (2 ^ 53 - 1) * 2 ^ 971"
      by (rule mult_right_mono) simp
    with rn True show ?thesis by (simp add: maxDouble_def)
  qed
qed

lemma overflowBound_gt_max: "maxDouble + 1 < overflowBound"
  by (simp add: maxDouble_def overflowBound_def)

lemma js_plus_exact: "\<bar>n + k\<bar> \<le> 2 ^ 53 \<Longrightarrow> js_plus (Num n) k = Num (n + k)"
  by (simp add: roundDouble_exact)

lemma js_plus_one_bounds:
  assumes "1 \<le> n" and "n \<le> int maxDouble"
  shows "\<exists>m. js_plus (Num n) 1 = Num m \<and> 1 \<le> m \<and> m \<le> int maxDouble"
proof -
  from assms have a: "nat \<bar>n + 1\<bar> = nat n + 1" by simp
  from assms have "nat n + 1 \<le> maxDouble + 1" by simp
  with overflowBound_gt_max have lt: "nat n + 1 < overflowBound" by linarith
  from assms have s: "sgn (n + 1) = 1" by simp
  have "js_plus (Num n) 1 = Num (int (roundNat (nat n + 1)))"
    using a lt s by (simp add: roundDouble_def)
  moreover have "0 < roundNat (nat n + 1)" by (rule roundNat_pos) simp
  moreover have "roundNat (nat n + 1) \<le> maxDouble" by (rule roundNat_le_max [OF lt])
  ultimately show ?thesis by simp
qed

subsection \<open>Some round numbers computed\<close>

lemmas parseInt_eval =
  parseInt_def whiteSpaceChars_def radixDigit_def digitValue_def roundDouble_exact

lemma parseInt_edge: "parseInt ''9007199254740992'' = Num 9007199254740992"
  by (simp add: parseInt_eval)

lemma roundDouble_beyond: "roundDouble 9007199254740994 = Num 9007199254740994"
  by (simp add: roundDouble_def overflowBound_def roundNat_def bitLength.simps)

lemma parseInt_beyond: "parseInt ''9007199254740994'' = Num 9007199254740994"
  by (simp add: parseInt_eval roundDouble_beyond)



lemma js_minus_beyond: "js_plus (Num 9007199254740994) (- 1) = Num 9007199254740992"
  by (simp add: roundDouble_def overflowBound_def roundNat_def bitLength.simps)


subsection \<open>Finding the active project\<close>

lemma findIndex_SomeD:
  "findIndex P xs = Some i \<Longrightarrow> i < length xs \<and> P (xs ! i)"
  by (induction xs arbitrary: i) (auto split: if_splits)

lemma findIndex_None_iff: "findIndex P xs = None \<longleftrightarrow> (\<forall>x \<in> set xs. \<not> P x)"
  by (induction xs) auto

lemma findIndex_update:
  "findIndex P xs = Some i \<Longrightarrow> P y \<Longrightarrow> findIndex P (xs[i := y]) = Some i"
proof (induction xs arbitrary: i)
  case Nil
  then show ?case by simp
next
  case (Cons x xs)
  show ?case
  proof (cases "P x")
    case True
    with Cons.prems show ?thesis by simp
  next
    case False
    with Cons.prems obtain j where j: "findIndex P xs = Some j" "i = Suc j"
      by auto
    from Cons.IH [OF j(1) Cons.prems(2)] False j show ?thesis by simp
  qed
qed

lemma getActiveProject_projects: "projects (snd (getActiveProject d)) = projects d"
  by (simp add: getActiveProject_def split: option.splits)

lemma getActiveProject_SomeD:
  assumes "getActiveProject d = (Some i, d1)"
  shows "i < length (projects d)" and "projects d1 = projects d"
    and "findIndex (\<lambda>p. pid p = activeProjectId d1) (projects d1) = Some i"
    and "pid (projects d ! i) = activeProjectId d1"
proof -
  show "projects d1 = projects d"
    using getActiveProject_projects [of d] assms by simp
  show "findIndex (\<lambda>p. pid p = activeProjectId d1) (projects d1) = Some i"
    using assms
    by (cases "projects d") (auto simp: getActiveProject_def split: option.splits if_splits)
  then show "i < length (projects d)" and "pid (projects d ! i) = activeProjectId d1"
    using findIndex_SomeD [of "\<lambda>p. pid p = activeProjectId d1" "projects d1" i]
      \<open>projects d1 = projects d\<close> by simp_all
qed

lemma getActiveProject_NoneD:
  "getActiveProject d = (None, d1) \<Longrightarrow> d1 = d \<and> projects d = []"
  by (auto simp: getActiveProject_def split: option.splits if_splits)

lemma getActiveProject_put:
  assumes "getActiveProject d = (Some i, d1)" and "pid p' = pid (projects d1 ! i)"
  shows "getActiveProject (putProject i p' d1) = (Some i, putProject i p' d1)"
proof -
  have f: "findIndex (\<lambda>p. pid p = activeProjectId d1) (projects d1) = Some i"
    and e: "pid (projects d1 ! i) = activeProjectId d1"
    using getActiveProject_SomeD [OF assms(1)] by simp_all
  have "findIndex (\<lambda>p. pid p = activeProjectId d1) ((projects d1)[i := p']) = Some i"
    using findIndex_update [OF f, of p'] assms(2) e by simp
  then show ?thesis
    by (simp add: getActiveProject_def putProject_def)
qed

lemma getActiveProject_idem:
  assumes "getActiveProject d = (Some i, d1)"
  shows "getActiveProject d1 = (Some i, d1)"
  using getActiveProject_SomeD(3) [OF assms] by (simp add: getActiveProject_def)

lemma activeProject_SomeD:
  assumes "activeProject d = Some p"
  obtains i d1 where "getActiveProject d = (Some i, d1)" and "i < length (projects d)"
    and "projects d1 = projects d" and "projects d ! i = p"
proof -
  obtain oi d1 where g: "getActiveProject d = (oi, d1)" by (cases "getActiveProject d")
  with assms obtain i where oi: "oi = Some i" and p: "projects d1 ! i = p"
    by (cases oi) (auto simp: activeProject_def)
  from g oi have g': "getActiveProject d = (Some i, d1)" by simp
  from getActiveProject_SomeD(1,2) [OF g'] p that [OF g'] show thesis by simp
qed

lemma activeProject_put:
  assumes "getActiveProject d = (Some i, d1)" and "pid p' = pid (projects d1 ! i)"
  shows "activeProject (putProject i p' d1) = Some p'"
  using getActiveProject_put [OF assms] getActiveProject_SomeD(1,2) [OF assms(1)]
  by (simp add: activeProject_def putProject_def)

lemma putProject_same: "projects d ! i = p \<Longrightarrow> putProject i p d = d"
  by (auto simp: putProject_def)

lemma activeProject_docB: "activeProject docB = Some projectB"
  by (simp add: activeProject_def getActiveProject_def docB_def projectB_def defaultProject_def)

lemma activeProject_docA: "activeProject docA = Some projectA"
  by (simp add: activeProject_def getActiveProject_def docA_def projectA_def defaultProject_def)

lemma activeProject_default: "activeProject loadData_default = Some defaultProject"
  by (simp add: activeProject_def getActiveProject_def loadData_default_def defaultProject_def)

lemma activeProject_docC: "activeProject docC = Some projectC"
  by (simp add: activeProject_def getActiveProject_def docC_def projectC_def defaultProject_def)

subsection \<open>Steps of the handlers on one project\<close>

lemma pid_advance: "pid (fst (advance force p)) = pid p"
  by (simp add: advance_def Let_def)

lemma nextRound_Some:
  assumes "getActiveProject d = (Some i, d1)"
  shows "nextRound force d =
           (putProject i (fst (advance force (projects d1 ! i))) d1,
            Json (snd (advance force (projects d1 ! i))))"
  using assms by (simp add: nextRound_def split: prod.splits)

lemma advance_empty:
  assumes "selectionsAt p (currentRound p) = []"
  shows "advance force p = (p, (reply False)\<lparr>message := Some ''No images selected''\<rparr>)"
  using assms by (simp add: advance_def)


lemma advance_force:
  assumes "selectionsAt p (currentRound p) \<noteq> []"
  shows "advance True p =
           (p\<lparr>roundSelections := (roundSelections p)(js_plus (currentRound p) 1 \<mapsto> []),
              currentRound := js_plus (currentRound p) 1, lastFileName := []\<rparr>, reply True)"
  using assms by (simp add: advance_def Let_def)


lemma getIndex_Some:
  assumes "getActiveProject d = (Some i, d1)"
  shows "getIndex imgs file d =
     (let p = projects d1 ! i;
          p1 = (if truthy file then p\<lparr>lastFileName := the file\<rparr> else p);
          imageList = imageListOf imgs p1;
          p2 = ensureCurrent p1;
          currentRoundSelections = selectionsAt p2 (currentRound p2);
          (fileName, p3) = pickFile imageList p2;
          d2 = putProject i p3 d1
      in (d2, Render \<lparr> view_project = Some p3, view_projects = projects d2,
                       view_fileName = fileName, view_imageList = imageList,
                       view_currentRoundSelections = currentRoundSelections \<rparr>))"
  using assms by (simp add: getIndex_def)

lemma imageListOf_lastFileName [simp]:
  "imageListOf imgs (p\<lparr>lastFileName := f\<rparr>) = imageListOf imgs p"
  by (simp add: imageListOf_def selectionsAt_def)

lemma ensureCurrent_fields [simp]:
  "pid (ensureCurrent p) = pid p"
  "lastFileName (ensureCurrent p) = lastFileName p"
  "currentRound (ensureCurrent p) = currentRound p"
  by (simp_all add: ensureCurrent_def)

lemma selectionsAt_ensureCurrent [simp]:
  "selectionsAt (ensureCurrent p) k = selectionsAt p k"
  by (simp add: ensureCurrent_def selectionsAt_def)

lemma pickFile_fields [simp]:
  "pid (snd (pickFile L p)) = pid p"
  "currentRound (snd (pickFile L p)) = currentRound p"
  "roundSelections (snd (pickFile L p)) = roundSelections p"
  by (simp_all add: pickFile_def Let_def)

lemma pickFile_lastFileName:
  "lastFileName p \<noteq> [] \<Longrightarrow>
   lastFileName (snd (pickFile L p)) =
     (if L = [] \<or> lastFileName p \<in> set L then lastFileName p else L ! 0)"
  by (simp add: pickFile_def Let_def)

lemma getIndex_fst:
  assumes "getActiveProject d = (Some i, d1)"
  shows "fst (getIndex imgs fileQ d) =
     putProject i
       (snd (pickFile (imageListOf imgs (projects d1 ! i))
          (ensureCurrent (if truthy fileQ then (projects d1 ! i)\<lparr>lastFileName := the fileQ\<rparr>
                          else projects d1 ! i)))) d1"
  by (simp add: getIndex_Some [OF assms] Let_def split: prod.splits)

lemma projects_deleteProject:
  "projects (fst (deleteProject projectId d)) =
     (if length (projects d) \<le> 1 then projects d
      else filter (\<lambda>p. Some (pid p) \<noteq> projectId) (projects d))"
  by (simp add: deleteProject_def Let_def split: list.splits)

lemma currentRound_toggleIn [simp]: "currentRound (toggleIn f p) = currentRound p"
  by (simp add: toggleIn_def Let_def)

lemma pid_toggleIn [simp]: "pid (toggleIn f p) = pid p"
  by (simp add: toggleIn_def Let_def)

lemma selectionsAt_toggleIn:
  "selectionsAt (toggleIn f p) (currentRound p) =
     (if f \<in> set (selectionsAt p (currentRound p))
      then filter (\<lambda>g. g \<noteq> f) (selectionsAt p (currentRound p))
      else selectionsAt p (currentRound p) @ [f])"
  by (simp add: toggleIn_def Let_def selectionsAt_def ensureCurrent_def split: option.splits)

lemma filter_neq_id: "f \<notin> set xs \<Longrightarrow> filter (\<lambda>g. g \<noteq> f) xs = xs"
  by (induction xs) auto

lemma selectionsAt_toggleIn_twice:
  "selectionsAt (toggleIn f (toggleIn f p)) (currentRound p) =
     (if f \<in> set (selectionsAt p (currentRound p))
      then filter (\<lambda>g. g \<noteq> f) (selectionsAt p (currentRound p)) @ [f]
      else selectionsAt p (currentRound p))"
  using selectionsAt_toggleIn [of f "toggleIn f p"] selectionsAt_toggleIn [of f p]
  by (simp add: filter_neq_id)

lemma toggleSelection_Some:
  assumes "getActiveProject d = (Some i, d1)" and "f \<noteq> []"
  shows "toggleSelection (Some f) d =
     (putProject i (toggleIn f (projects d1 ! i)) d1,
      Json ((reply True)\<lparr>selected :=
        Some (f \<in> set (selectionsAt (toggleIn f (projects d1 ! i))
                        (currentRound (projects d1 ! i))))\<rparr>))"
  using assms by (simp add: toggleSelection_def truthy_def Let_def)

lemma mset_filter_snoc:
  assumes "distinct xs" and "f \<in> set xs"
  shows "mset (filter (\<lambda>g. g \<noteq> f) xs @ [f]) = mset xs"
  using assms
proof (induction xs)
  case Nil
  then show ?case by simp
next
  case (Cons x xs)
  show ?case
  proof (cases "x = f")
    case True
    with Cons.prems show ?thesis by (simp add: filter_neq_id)
  next
    case False
    with Cons show ?thesis by simp
  qed
qed

subsection \<open>Round numbers along the handlers\<close>

lemma roundsOk_getActive:
  assumes "roundsOk d" and "getActiveProject d = (oi, d1)"
  shows "roundsOk d1"
  using assms getActiveProject_projects [of d] by (simp add: roundsOk_def)

lemma roundsOk_nth:
  assumes "roundsOk d" and "i < length (projects d)"
  shows "roundOk (currentRound (projects d ! i))"
  using assms by (simp add: roundsOk_def list_all_length)

lemma roundsOk_put:
  assumes "roundsOk d" and "roundOk (currentRound p')"
  shows "roundsOk (putProject i p' d)"
proof -
  have "set ((projects d)[i := p']) \<subseteq> insert p' (set (projects d))"
    by (rule set_update_subset_insert)
  with assms show ?thesis
    by (auto simp: roundsOk_def putProject_def list_all_iff)
qed

lemma roundOk_one: "roundOk (Num 1)"
  by (simp add: roundOk_def maxDouble_def)

lemma roundOk_plus1:
  assumes "roundOk r"
  shows "roundOk (js_plus r 1)"
proof -
  from assms obtain n where r: "r = Num n" and n: "1 \<le> n" "n \<le> int maxDouble"
    by (cases r) (simp_all add: roundOk_def)
  from js_plus_one_bounds [OF n] r show ?thesis
    by (auto simp: roundOk_def)
qed

lemma roundOk_advance: "roundOk (currentRound p) \<Longrightarrow> roundOk (currentRound (fst (advance force p)))"
  by (simp add: advance_def Let_def roundOk_plus1)

lemma roundsOk_handle:
  assumes "roundsOk d" and "roundRequestOk r"
  shows "roundsOk (handle r d)"
proof -
  obtain oi d1 where g: "getActiveProject d = (oi, d1)"
    by (cases "getActiveProject d")
  have ok1: "roundsOk d1" by (rule roundsOk_getActive [OF assms(1) g])
  have nth: "roundOk (currentRound (projects d1 ! i))" if "oi = Some i" for i
    using roundsOk_nth [OF ok1, of i] getActiveProject_SomeD(1,2) [of d i d1] g that by simp
  show ?thesis
  proof (cases r)
    case (GetIndex imgs fileQ)
    show ?thesis
    proof (cases oi)
      case None
      with g GetIndex ok1 show ?thesis by (simp add: getIndex_def)
    next
      case (Some i)
      with g have gi: "getActiveProject d = (Some i, d1)" by simp
      have "\<exists>p'. fst (getIndex imgs fileQ d) = putProject i p' d1
              \<and> currentRound p' = currentRound (projects d1 ! i)"
        using getIndex_fst [OF gi, of imgs fileQ] by auto
      then show ?thesis
        using GetIndex ok1 nth [OF Some] roundsOk_put by auto
    qed
  next
    case GetImage
    with g ok1 show ?thesis by (simp add: getImage_def)
  next
    case (UpdateSettings xSel fPath)
    with g ok1 nth show ?thesis
      by (cases oi) (simp_all add: updateSettings_def roundsOk_put)
  next
    case (CreateProject uuid nm fPath)
    with assms(1) show ?thesis
      by (simp add: createProject_def roundsOk_def roundOk_one)
  next
    case (SwitchProject projectId)
    with assms(1) show ?thesis
      by (simp add: switchProject_def roundsOk_def split: option.splits)
  next
    case (SwitchRound roundStr)
    with g ok1 assms(2) show ?thesis
      by (cases oi) (auto simp: switchRound_def roundsOk_put)
  next
    case (DeleteProject projectId)
    with assms(1) show ?thesis
      by (simp add: projects_deleteProject roundsOk_def list_all_iff)
  next
    case (ToggleSelection fileName)
    with g ok1 nth show ?thesis
      by (cases oi) (simp_all add: toggleSelection_def roundsOk_put Let_def)
  next
    case FinishRound
    with g ok1 show ?thesis by (simp add: finishRound_def)
  next
    case (NextRound force)
    show ?thesis
    proof (cases oi)
      case None
      with g NextRound ok1 show ?thesis by (simp add: nextRound_def)
    next
      case (Some i)
      with g have gi: "getActiveProject d = (Some i, d1)" by simp
      from NextRound ok1 nth [OF Some] show ?thesis
        by (simp add: nextRound_Some [OF gi] roundsOk_put roundOk_advance)
    qed
  qed
qed

lemma roundsOk_default: "roundsOk loadData_default"
  by (simp add: roundsOk_def roundOk_one loadData_default_def defaultProject_def)

subsection \<open>Project ids along the handlers\<close>

lemma ids_put:
  assumes "pid p' = pid (projects d ! i)"
  shows "map pid (projects (putProject i p' d)) = map pid (projects d)"
proof -
  have "(map pid (projects d))[i := pid (projects d ! i)] =
          map pid ((projects d)[i := projects d ! i])"
    by (simp only: map_update)
  then have "(map pid (projects d))[i := pid (projects d ! i)] = map pid (projects d)"
    by simp
  with assms show ?thesis
    by (simp add: putProject_def map_update)
qed

lemma ids_getActive: "getActiveProject d = (oi, d1) \<Longrightarrow> map pid (projects d1) = map pid (projects d)"
  using getActiveProject_projects [of d] by simp

lemma ids_handle:
  assumes "\<forall>uuid nm fPath. r \<noteq> CreateProject uuid nm fPath" and "\<forall>q. r \<noteq> DeleteProject q"
  shows "map pid (projects (handle r d)) = map pid (projects d)"
proof -
  obtain oi d1 where g: "getActiveProject d = (oi, d1)"
    by (cases "getActiveProject d")
  have pr: "projects d1 = projects d"
    using getActiveProject_projects [of d] g by simp
  show ?thesis
  proof (cases oi)
    case None
    with g pr assms show ?thesis
      by (cases r)
        (simp_all add: getIndex_def getImage_def updateSettings_def switchProject_def
          switchRound_def toggleSelection_def finishRound_def nextRound_def split: option.splits)
  next
    case (Some i)
    with g have gi: "getActiveProject d = (Some i, d1)" by simp
    show ?thesis
    proof (cases r)
      case (GetIndex imgs fileQ)
      then show ?thesis using pr by (simp add: getIndex_fst [OF gi] ids_put)
    next
      case (NextRound force)
      then show ?thesis using pr by (simp add: nextRound_Some [OF gi] ids_put pid_advance)
    qed (use gi pr assms in \<open>simp_all add: getImage_def updateSettings_def switchProject_def
          switchRound_def toggleSelection_def finishRound_def ids_put Let_def
          split: option.splits\<close>)
  qed
qed

lemma filter_ne:
  assumes "distinct (map f xs)" and "\<not> length xs \<le> 1"
  shows "filter (\<lambda>x. Some (f x) \<noteq> q) xs \<noteq> []"
proof -
  from assms(2) obtain a b rest where xs: "xs = a # b # rest"
    by (cases xs; cases "tl xs") auto
  with assms(1) have "f a \<noteq> f b" by simp
  then have "Some (f a) \<noteq> q \<or> Some (f b) \<noteq> q" by auto
  with xs show ?thesis by auto
qed

lemma idsOk_delete:
  assumes "idsOk d"
  shows "idsOk (fst (deleteProject q d))"
  using assms filter_ne [of pid "projects d" q]
  by (auto simp: idsOk_def projects_deleteProject distinct_map_filter)

lemma idsOk_create:
  assumes "idsOk d" and "uuid \<notin> set (map pid (projects d))"
  shows "idsOk (fst (createProject uuid nm fPath d))"
  using assms by (auto simp: idsOk_def createProject_def)

lemma idsOk_handle:
  assumes "idsOk d" and "freshIds (r # rs) d"
  shows "idsOk (handle r d) \<and> freshIds rs (handle r d)"
proof (cases r)
  case (CreateProject uuid nm fPath)
  with assms show ?thesis by (simp add: idsOk_create)
next
  case (DeleteProject q)
  with assms show ?thesis by (simp add: idsOk_delete)
qed (use assms ids_handle [of r d] in \<open>auto simp: idsOk_def\<close>)

lemma idsOk_default: "idsOk loadData_default"
  by (simp add: idsOk_def loadData_default_def defaultProject_def)

subsection \<open>The example states reached by requests\<close>

lemmas handler_eval =
  switchRound_def toggleSelection_def getActiveProject_def putProject_def truthy_def
  toggleIn_def ensureCurrent_def selectionsAt_def reply_def
  loadData_default_def defaultProject_def


lemma state_beyond:
  "run requestsBeyond loadData_default =
     \<lparr> activeProjectId = ''default'',
       projects = [defaultProject\<lparr>currentRound := Num 9007199254740994,
                     roundSelections := [Num 9007199254740992 \<mapsto> [''a.png'']]\<rparr>] \<rparr>"
  by (simp add: requestsBeyond_def handler_eval parseInt_edge parseInt_beyond)


section \<open>The file shown by GET /\<close>

text \<open>
  Claim C1 says that a non-empty \<open>req.query.file\<close> always ends up as the project's
  \<open>lastFileName\<close>, whether or not it is a candidate. The handler stores it first, but its
  last block then replaces a file name that is not in a non-empty candidate list by the
  first candidate: with the candidates \<open>a.png\<close>, \<open>b.jpg\<close> and the request
  \<open>zzz.png\<close>, the stored name is \<open>a.png\<close>.
\<close>

theorem getIndex_requested_file_counterexample:
  "map lastFileName (projects (fst (getIndex imgsAB (Some ''zzz.png'') loadData_default)))
     = [''a.png'']
   \<and> map lastFileName (projects (fst (getIndex imgsAB (Some ''zzz.png'') loadData_default)))
     \<noteq> [''zzz.png'']"
  by (simp add: getIndex_def getActiveProject_def loadData_default_def defaultProject_def
      truthy_def imageListOf_def imgsAB_def ensureCurrent_def selectionsAt_def pickFile_def
      putProject_def)

text \<open>
  C1, as the handler has it: after GET / with a non-empty requested file, the active
  project's \<open>lastFileName\<close> is the requested file when the candidate list is empty or
  contains it, and the first candidate otherwise.
\<close>

theorem getIndex_requested_file:
  assumes "activeProject d = Some p" and "file \<noteq> []"
  shows "\<exists>p'. activeProject (fst (getIndex imgs (Some file) d)) = Some p'
           \<and> lastFileName p' =
               (if imageListOf imgs p = [] \<or> file \<in> set (imageListOf imgs p) then file
                else imageListOf imgs p ! 0)"
proof -
  from assms(1) obtain i d1 where g: "getActiveProject d = (Some i, d1)"
    and i: "i < length (projects d)" and pr: "projects d1 = projects d"
    and p: "projects d ! i = p"
    by (rule activeProject_SomeD)
  define p2 where "p2 = ensureCurrent (p\<lparr>lastFileName := file\<rparr>)"
  define p3 where "p3 = snd (pickFile (imageListOf imgs p) p2)"
  have l2: "lastFileName p2 = file" and id2: "pid p2 = pid p"
    by (simp_all add: p2_def)
  have fstI: "fst (getIndex imgs (Some file) d) = putProject i p3 d1"
    using assms(2) p pr
    by (simp add: getIndex_Some [OF g] truthy_def Let_def p2_def p3_def split: prod.splits)
  have "pid p3 = pid (projects d1 ! i)"
    using id2 p pr by (simp add: p3_def)
  then have a: "activeProject (putProject i p3 d1) = Some p3"
    by (rule activeProject_put [OF g])
  have "lastFileName p3 =
      (if imageListOf imgs p = [] \<or> file \<in> set (imageListOf imgs p) then file
       else imageListOf imgs p ! 0)"
    using pickFile_lastFileName [of p2 "imageListOf imgs p"] assms(2) l2
    by (simp add: p3_def)
  with fstI a show ?thesis by simp
qed

theorem getIndex_requested_file_witness:
  "activeProject loadData_default = Some defaultProject \<and> ''b.jpg'' \<noteq> []
   \<and> (\<exists>p'. activeProject (fst (getIndex imgsAB (Some ''b.jpg'') loadData_default)) = Some p'
          \<and> lastFileName p' = ''b.jpg'')"
proof -
  have n: "''b.jpg'' \<noteq> []" by simp
  have l: "imageListOf imgsAB defaultProject = [''a.png'', ''b.jpg'']"
    by (simp add: imageListOf_def imgsAB_def defaultProject_def)
  from getIndex_requested_file [OF activeProject_default n, of imgsAB]
  show ?thesis using activeProject_default l by simp
qed

section \<open>Candidates of a later round\<close>

text \<open>
  Claim C5 says that at every round \<open>N > 1\<close> the candidate list is the sequence stored in
  \<open>roundSelections[N - 1]\<close>, or empty when there is no such entry. The handler computes
  the key \<open>currentRound - 1\<close> in double arithmetic. After \<open>requestsBeyond\<close> the project is
  at round \<open>2 ^ 53 + 2\<close> and has no entry for \<open>2 ^ 53 + 1\<close>, which is no double; the
  difference is \<open>2 ^ 53\<close>, and the page lists \<open>a.png\<close>, the selection of round \<open>2 ^ 53\<close>.
\<close>

theorem getIndex_candidates_later_round_counterexample:
  "map currentRound (projects (run requestsBeyond loadData_default)) = [Num 9007199254740994]
   \<and> roundSelections (hd (projects (run requestsBeyond loadData_default)))
        (Num (9007199254740994 - 1)) = None
   \<and> imageListShown (snd (getIndex imgsAB None (run requestsBeyond loadData_default)))
        = [''a.png'']"
  by (simp add: state_beyond defaultProject_def getIndex_def getActiveProject_def truthy_def
      imageListOf_def selectionsAt_def ensureCurrent_def pickFile_def putProject_def
      imageListShown_def js_minus_beyond Let_def del: js_plus.simps)

text \<open>
  C5, as the handler has it: for an active project at round \<open>N > 1\<close>, the candidate list
  that GET / computes is the sequence stored in \<open>roundSelections\<close> under the key that
  the program computes as \<open>N - 1\<close>, or the empty sequence when there is no such entry,
  whatever the directory listing \<open>imgs\<close>, the project's \<open>filePath\<close> and the query are.
  For \<open>N\<close> up to \<open>2 ^ 53\<close> that key is the integer \<open>N - 1\<close>.
\<close>

theorem getIndex_candidates_later_round:
  assumes "activeProject d = Some p" and "currentRound p = Num N" and "1 < N"
  shows "\<exists>v. snd (getIndex imgs file d) = Render v
           \<and> view_imageList v =
               (case roundSelections p (js_plus (Num N) (- 1)) of None \<Rightarrow> [] | Some xs \<Rightarrow> xs)
           \<and> (N \<le> 2 ^ 53 \<longrightarrow>
                view_imageList v =
                  (case roundSelections p (Num (N - 1)) of None \<Rightarrow> [] | Some xs \<Rightarrow> xs))"
proof -
  from assms(1) obtain i d1 where g: "getActiveProject d = (Some i, d1)"
    and i: "i < length (projects d)" and pr: "projects d1 = projects d"
    and p: "projects d ! i = p"
    by (rule activeProject_SomeD)
  have l: "imageListOf imgs p =
      (case roundSelections p (js_plus (Num N) (- 1)) of None \<Rightarrow> [] | Some xs \<Rightarrow> xs)"
    using assms(2,3) by (simp add: imageListOf_def selectionsAt_def del: js_plus.simps)
  have e: "js_plus (Num N) (- 1) = Num (N - 1)" if "N \<le> 2 ^ 53"
    using that assms(3) js_plus_exact [of N "- 1"] by simp
  from l e show ?thesis
    using p pr by (simp add: getIndex_Some [OF g] Let_def del: js_plus.simps split: prod.splits)
qed

theorem getIndex_candidates_later_round_witness:
  "activeProject docB = Some projectB \<and> currentRound projectB = Num 2 \<and> (1::int) < 2
   \<and> (2::int) \<le> 2 ^ 53
   \<and> (\<exists>v. snd (getIndex imgsAB None docB) = Render v
          \<and> view_imageList v = [''c.png'', ''d.png''])"
proof -
  have c: "currentRound projectB = Num 2" by (simp add: projectB_def)
  have l: "(1::int) < 2" by simp
  have b: "(2::int) \<le> 2 ^ 53" by simp
  have r: "roundSelections projectB (Num (2 - 1)) = Some [''c.png'', ''d.png'']"
    by (simp add: projectB_def)
  from getIndex_candidates_later_round [OF activeProject_docB c l, of imgsAB None]
  obtain v where "snd (getIndex imgsAB None docB) = Render v"
    and "(2::int) \<le> 2 ^ 53 \<longrightarrow>
           view_imageList v =
             (case roundSelections projectB (Num (2 - 1)) of None \<Rightarrow> [] | Some xs \<Rightarrow> xs)"
    by blast
  with b r have "snd (getIndex imgsAB None docB) = Render v
      \<and> view_imageList v = [''c.png'', ''d.png'']"
    by simp
  then show ?thesis using activeProject_docB c l b by blast
qed

section \<open>Advancing to the next round\<close>

text \<open>
  C4: when the active project's entry for its current round is absent or empty,
  POST /nextRound replies \<open>success: false\<close> with the message \<open>No images selected\<close>,
  with or without \<open>force\<close>, and no project changes: \<open>currentRound\<close>, \<open>roundSelections\<close> and
  \<open>lastFileName\<close> are as before.
\<close>

theorem nextRound_empty_selection:
  assumes "activeProject d = Some p"
    and "roundSelections p (currentRound p) = None \<or> roundSelections p (currentRound p) = Some []"
  shows "snd (nextRound force d) =
           Json \<lparr> success = False, selected = None, requireConfirmation = None,
                  message = Some ''No images selected'' \<rparr>
         \<and> projects (fst (nextRound force d)) = projects d
         \<and> activeProject (fst (nextRound force d)) = Some p"
proof -
  from assms(1) obtain i d1 where g: "getActiveProject d = (Some i, d1)"
    and i: "i < length (projects d)" and pr: "projects d1 = projects d"
    and p: "projects d ! i = p"
    by (rule activeProject_SomeD)
  from assms(2) have e: "selectionsAt p (currentRound p) = []"
    by (auto simp: selectionsAt_def)
  have n: "nextRound force d = (d1, Json ((reply False)\<lparr>message := Some ''No images selected''\<rparr>))"
    using nextRound_Some [OF g, of force] advance_empty [OF e, of force] p pr
    by (simp add: putProject_same)
  have a: "activeProject d1 = Some p"
    using getActiveProject_idem [OF g] p pr by (simp add: activeProject_def)
  from n pr a show ?thesis by (simp add: reply_def)
qed

theorem nextRound_empty_selection_witness:
  "activeProject loadData_default = Some defaultProject
   \<and> roundSelections defaultProject (currentRound defaultProject) = None
   \<and> snd (nextRound True loadData_default) =
       Json \<lparr> success = False, selected = None, requireConfirmation = None,
              message = Some ''No images selected'' \<rparr>
   \<and> projects (fst (nextRound True loadData_default)) = projects loadData_default
   \<and> activeProject (fst (nextRound True loadData_default)) = Some defaultProject"
proof -
  have h: "roundSelections defaultProject (currentRound defaultProject) = None"
    by (simp add: defaultProject_def)
  from nextRound_empty_selection [OF activeProject_default disjI1 [OF h], of True]
  show ?thesis using activeProject_default h by simp
qed






text \<open>
  C10: when the active project has a non-empty selection for its current round,
  POST /nextRound with \<open>force\<close> succeeds, and afterwards the entry of \<open>roundSelections\<close>
  for the round just entered exists and is empty, also when the project had no entry for
  that round before.
\<close>

theorem nextRound_force_fresh_round:
  assumes "activeProject d = Some p"
    and "roundSelections p (currentRound p) = Some cur" and "cur \<noteq> []"
  shows "snd (nextRound True d) =
           Json \<lparr> success = True, selected = None, requireConfirmation = None, message = None \<rparr>
         \<and> (\<exists>p'. activeProject (fst (nextRound True d)) = Some p'
                \<and> currentRound p' = js_plus (currentRound p) 1
                \<and> roundSelections p' (currentRound p') = Some [])"
proof -
  from assms(1) obtain i d1 where g: "getActiveProject d = (Some i, d1)"
    and i: "i < length (projects d)" and pr: "projects d1 = projects d"
    and p: "projects d ! i = p"
    by (rule activeProject_SomeD)
  have c: "selectionsAt p (currentRound p) \<noteq> []"
    using assms(2,3) by (simp add: selectionsAt_def)
  define p' where "p' = fst (advance True p)"
  have n: "nextRound True d = (putProject i p' d1, Json (reply True))"
    using nextRound_Some [OF g, of True] advance_force [OF c] p pr
    by (simp add: p'_def)
  have "pid p' = pid (projects d1 ! i)"
    using pid_advance [of True p] p pr by (simp add: p'_def)
  then have a: "activeProject (putProject i p' d1) = Some p'"
    by (rule activeProject_put [OF g])
  have "currentRound p' = js_plus (currentRound p) 1"
    and "roundSelections p' (currentRound p') = Some []"
    using advance_force [OF c] by (simp_all add: p'_def)
  with n a show ?thesis by (simp add: reply_def)
qed

theorem nextRound_force_fresh_round_witness:
  "activeProject docA = Some projectA
   \<and> roundSelections projectA (currentRound projectA) = Some [''a.png'']
   \<and> roundSelections projectA (js_plus (currentRound projectA) 1) = None
   \<and> snd (nextRound True docA) =
       Json \<lparr> success = True, selected = None, requireConfirmation = None, message = None \<rparr>
   \<and> (\<exists>p'. activeProject (fst (nextRound True docA)) = Some p'
          \<and> currentRound p' = js_plus (currentRound projectA) 1
          \<and> roundSelections p' (currentRound p') = Some [])"
proof -
  have h: "roundSelections projectA (currentRound projectA) = Some [''a.png'']"
    and a: "roundSelections projectA (js_plus (currentRound projectA) 1) = None"
    by (simp_all add: projectA_def defaultProject_def roundDouble_exact)
  have n: "[''a.png''] \<noteq> []" by simp
  from nextRound_force_fresh_round [OF activeProject_docA h n]
  show ?thesis using activeProject_docA h a by simp
qed

section \<open>The active project\<close>

text \<open>
  C9: when \<open>activeProjectId\<close> is the id of no project and there is a project,
  \<open>getActiveProject\<close> returns the first project and leaves \<open>activeProjectId\<close> at that
  project's id; when \<open>activeProjectId\<close> is the id of a project, it returns a project with
  that id and leaves the document as it was.
\<close>

theorem getActiveProject_self_healing:
  "(projects d \<noteq> [] \<and> activeProjectId d \<notin> pid ` set (projects d) \<longrightarrow>
      getActiveProject d = (Some 0, d\<lparr>activeProjectId := pid (hd (projects d))\<rparr>)
      \<and> activeProject d = Some (hd (projects d)))
   \<and> (activeProjectId d \<in> pid ` set (projects d) \<longrightarrow>
      (\<exists>i. getActiveProject d = (Some i, d) \<and> i < length (projects d)
           \<and> pid (projects d ! i) = activeProjectId d
           \<and> activeProject d = Some (projects d ! i)))"
proof (intro conjI impI)
  assume a: "projects d \<noteq> [] \<and> activeProjectId d \<notin> pid ` set (projects d)"
  then have n: "findIndex (\<lambda>p. pid p = activeProjectId d) (projects d) = None"
    unfolding findIndex_None_iff by (metis imageI)
  from a have h: "projects d ! 0 = hd (projects d)"
    by (simp add: hd_conv_nth)
  from a n h show "getActiveProject d = (Some 0, d\<lparr>activeProjectId := pid (hd (projects d))\<rparr>)"
    by (simp add: getActiveProject_def)
  with h show "activeProject d = Some (hd (projects d))"
    by (simp add: activeProject_def)
next
  assume "activeProjectId d \<in> pid ` set (projects d)"
  then have "findIndex (\<lambda>p. pid p = activeProjectId d) (projects d) \<noteq> None"
    by (auto simp: findIndex_None_iff)
  then obtain i where f: "findIndex (\<lambda>p. pid p = activeProjectId d) (projects d) = Some i"
    by auto
  then have g: "getActiveProject d = (Some i, d)"
    by (simp add: getActiveProject_def)
  from findIndex_SomeD [OF f] g
  show "\<exists>i. getActiveProject d = (Some i, d) \<and> i < length (projects d)
           \<and> pid (projects d ! i) = activeProjectId d
           \<and> activeProject d = Some (projects d ! i)"
    by (auto simp: activeProject_def)
qed

theorem getActiveProject_self_healing_witness:
  "projects docA \<noteq> [] \<and> activeProjectId docA \<notin> pid ` set (projects docA)
   \<and> getActiveProject docA = (Some 0, docA\<lparr>activeProjectId := ''default''\<rparr>)
   \<and> activeProject docA = Some projectA
   \<and> activeProjectId docB \<in> pid ` set (projects docB)
   \<and> (\<exists>i. getActiveProject docB = (Some i, docB) \<and> i < length (projects docB)
          \<and> pid (projects docB ! i) = activeProjectId docB
          \<and> activeProject docB = Some (projects docB ! i))"
proof -
  have a: "projects docA \<noteq> [] \<and> activeProjectId docA \<notin> pid ` set (projects docA)"
    by (simp add: docA_def projectA_def defaultProject_def)
  have b: "activeProjectId docB \<in> pid ` set (projects docB)"
    by (simp add: docB_def projectB_def defaultProject_def)
  have h: "hd (projects docA) = projectA" "pid projectA = ''default''"
    by (simp_all add: docA_def projectA_def defaultProject_def)
  from getActiveProject_self_healing [of docA] getActiveProject_self_healing [of docB]
  show ?thesis using a b h by simp
qed

section \<open>Toggling a selection twice\<close>

text \<open>
  C6: for a non-empty file name \<open>f\<close>, two POST /toggleSelection requests for \<open>f\<close> in a row
  leave \<open>f\<close> selected exactly if it was selected before, and leave the current round's
  selection list with the same elements and with its other elements in the same order.
  When \<open>f\<close> was not selected the list is the same list; when it was, \<open>f\<close> has moved to
  the end, and a list without repetitions keeps its elements counted with multiplicity.
\<close>

theorem toggleSelection_twice:
  assumes "activeProject d = Some p" and "f \<noteq> []"
  shows "\<exists>p2. activeProject (fst (toggleSelection (Some f) (fst (toggleSelection (Some f) d))))
               = Some p2
           \<and> currentRound p2 = currentRound p
           \<and> (f \<in> set (selectionsAt p2 (currentRound p2)))
               = (f \<in> set (selectionsAt p (currentRound p)))
           \<and> set (selectionsAt p2 (currentRound p2)) = set (selectionsAt p (currentRound p))
           \<and> filter (\<lambda>g. g \<noteq> f) (selectionsAt p2 (currentRound p2))
               = filter (\<lambda>g. g \<noteq> f) (selectionsAt p (currentRound p))
           \<and> (distinct (selectionsAt p (currentRound p)) \<longrightarrow>
                mset (selectionsAt p2 (currentRound p2)) = mset (selectionsAt p (currentRound p)))
           \<and> (f \<notin> set (selectionsAt p (currentRound p)) \<longrightarrow>
                selectionsAt p2 (currentRound p2) = selectionsAt p (currentRound p))"
proof -
  from assms(1) obtain i d1 where g: "getActiveProject d = (Some i, d1)"
    and i: "i < length (projects d)" and pr: "projects d1 = projects d"
    and p: "projects d ! i = p"
    by (rule activeProject_SomeD)
  define p1 where "p1 = toggleIn f p"
  define p2 where "p2 = toggleIn f p1"
  define cur where "cur = selectionsAt p (currentRound p)"
  have t1: "fst (toggleSelection (Some f) d) = putProject i p1 d1"
    using toggleSelection_Some [OF g assms(2)] p pr by (simp add: p1_def)
  have id1: "pid p1 = pid (projects d1 ! i)"
    using p pr by (simp add: p1_def)
  have g1: "getActiveProject (putProject i p1 d1) = (Some i, putProject i p1 d1)"
    by (rule getActiveProject_put [OF g id1])
  have n1: "projects (putProject i p1 d1) ! i = p1"
    using i pr by (simp add: putProject_def)
  have t2: "fst (toggleSelection (Some f) (putProject i p1 d1)) =
      putProject i p2 (putProject i p1 d1)"
    using toggleSelection_Some [OF g1 assms(2)] n1 by (simp add: p2_def)
  have "pid p2 = pid (projects (putProject i p1 d1) ! i)"
    using n1 by (simp add: p2_def)
  then have a: "activeProject (putProject i p2 (putProject i p1 d1)) = Some p2"
    by (rule activeProject_put [OF g1])
  have c: "currentRound p2 = currentRound p"
    by (simp add: p2_def p1_def)
  have s: "selectionsAt p2 (currentRound p2) =
      (if f \<in> set cur then filter (\<lambda>g. g \<noteq> f) cur @ [f] else cur)"
    using selectionsAt_toggleIn_twice [of f p] c by (simp add: p2_def p1_def cur_def)
  have "distinct cur \<longrightarrow> mset (selectionsAt p2 (currentRound p2)) = mset cur"
    using s mset_filter_snoc [of cur f] by simp
  moreover have "set (selectionsAt p2 (currentRound p2)) = set cur"
    using s by auto
  moreover have "filter (\<lambda>g. g \<noteq> f) (selectionsAt p2 (currentRound p2)) = filter (\<lambda>g. g \<noteq> f) cur"
    using s by simp
  moreover have "f \<notin> set cur \<longrightarrow> selectionsAt p2 (currentRound p2) = cur"
    using s by simp
  ultimately show ?thesis
    using t1 t2 a c unfolding cur_def by auto
qed

theorem toggleSelection_twice_witness:
  "activeProject docC = Some projectC \<and> ''a.png'' \<noteq> []
   \<and> selectionsAt projectC (currentRound projectC) = [''a.png'', ''b.jpg'']
   \<and> (\<exists>p2. activeProject (fst (toggleSelection (Some ''a.png'')
                 (fst (toggleSelection (Some ''a.png'') docC)))) = Some p2
          \<and> currentRound p2 = Num 1
          \<and> ''a.png'' \<in> set (selectionsAt p2 (currentRound p2))
          \<and> set (selectionsAt p2 (currentRound p2)) = {''a.png'', ''b.jpg''}
          \<and> filter (\<lambda>g. g \<noteq> ''a.png'') (selectionsAt p2 (currentRound p2)) = [''b.jpg'']
          \<and> mset (selectionsAt p2 (currentRound p2)) = mset [''a.png'', ''b.jpg''])"
proof -
  have n: "''a.png'' \<noteq> []" by simp
  have r: "currentRound projectC = Num 1"
    by (simp add: projectC_def defaultProject_def)
  have c: "selectionsAt projectC (currentRound projectC) = [''a.png'', ''b.jpg'']"
    by (simp add: selectionsAt_def projectC_def defaultProject_def)
  from toggleSelection_twice [OF activeProject_docC n] obtain p2 where
    "activeProject (fst (toggleSelection (Some ''a.png'')
        (fst (toggleSelection (Some ''a.png'') docC)))) = Some p2"
    "currentRound p2 = currentRound projectC"
    "(''a.png'' \<in> set (selectionsAt p2 (currentRound p2)))
       = (''a.png'' \<in> set (selectionsAt projectC (currentRound projectC)))"
    "set (selectionsAt p2 (currentRound p2)) = set (selectionsAt projectC (currentRound projectC))"
    "filter (\<lambda>g. g \<noteq> ''a.png'') (selectionsAt p2 (currentRound p2))
       = filter (\<lambda>g. g \<noteq> ''a.png'') (selectionsAt projectC (currentRound projectC))"
    "distinct (selectionsAt projectC (currentRound projectC)) \<longrightarrow>
       mset (selectionsAt p2 (currentRound p2))
         = mset (selectionsAt projectC (currentRound projectC))"
    by blast
  then show ?thesis
    using activeProject_docC n r c by (intro conjI exI [of _ p2]) simp_all
qed

section \<open>The round number stays positive\<close>

text \<open>
  Claim C2 says that \<open>currentRound\<close> is an integer at least 1 in every reachable state,
  whatever value a \<open>switchRound\<close> request carries. The handler stores \<open>parseInt(round)\<close>
  unchecked: from the default document the request \<open>-3\<close> leaves \<open>currentRound\<close> at \<open>-3\<close>,
  and the request \<open>abc\<close> leaves it at NaN.
\<close>

theorem currentRound_at_least_one_counterexample:
  "map currentRound (projects (run [SwitchRound (Some ''-3'')] loadData_default)) = [Num (- 3)]
   \<and> map currentRound (projects (run [SwitchRound (Some ''abc'')] loadData_default)) = [NaN]
   \<and> \<not> roundsOk (run [SwitchRound (Some ''-3'')] loadData_default)"
  by (simp add: switchRound_def getActiveProject_def loadData_default_def defaultProject_def
      putProject_def truthy_def parseInt_eval roundsOk_def roundOk_def)

text \<open>
  C2, as the handlers have it: starting from a document in which every project's
  \<open>currentRound\<close> is an integer at least 1 (the default document is one), after any
  sequence of requests in which every \<open>switchRound\<close> value is absent, empty, or parses to
  an integer at least 1, every project's \<open>currentRound\<close> is an integer at least 1.
\<close>

theorem currentRound_at_least_one:
  assumes "roundsOk d" and "list_all roundRequestOk rs"
  shows "roundsOk (run rs d)"
  using assms
proof (induction rs arbitrary: d)
  case Nil
  then show ?case by simp
next
  case (Cons r rs)
  from Cons.prems have "roundsOk (handle r d)" by (simp add: roundsOk_handle)
  with Cons.IH Cons.prems(2) show ?case by simp
qed

theorem currentRound_at_least_one_witness:
  "roundsOk loadData_default \<and> list_all roundRequestOk requestsA
   \<and> roundsOk (run requestsA loadData_default)"
proof -
  have r: "list_all roundRequestOk requestsA"
    by (simp add: requestsA_def truthy_def roundOk_def parseInt_eval maxDouble_def)
  from currentRound_at_least_one [OF roundsOk_default r]
  show ?thesis using roundsOk_default r by simp
qed

section \<open>The list of projects stays non-empty\<close>

text \<open>
  Claim C8 says that deleting the only project is rejected with a failure returned.
  \<open>deleteProject\<close> returns nothing of the kind: it answers the rejected request with the
  redirect to \<open>/\<close> with which it answers a deletion that it carries out.
\<close>

theorem projects_never_empty_counterexample:
  "deleteProject (Some ''default'') loadData_default = (loadData_default, Redirect ''/'')
   \<and> snd (deleteProject (Some ''u1'') (run [CreateProject ''u1'' None None] loadData_default))
       = Redirect ''/''
   \<and> map pid (projects (fst (deleteProject (Some ''u1'')
         (run [CreateProject ''u1'' None None] loadData_default)))) = [''default'']"
  by (simp add: deleteProject_def createProject_def loadData_default_def defaultProject_def)

text \<open>
  C8, as the handlers have it: starting from a document with at least one project and no
  two projects of the same id (the default document is one), after any sequence of
  requests in which every created project gets a new id, the list of projects is not
  empty; and in such a state with exactly one project, \<open>deleteProject\<close> changes nothing
  and redirects to \<open>/\<close>.
\<close>

theorem projects_never_empty:
  assumes "idsOk d" and "freshIds rs d"
  shows "projects (run rs d) \<noteq> []
         \<and> (\<forall>q. length (projects (run rs d)) = 1 \<longrightarrow>
               deleteProject q (run rs d) = (run rs d, Redirect ''/''))"
proof -
  have "idsOk (run rs d)"
    using assms
  proof (induction rs arbitrary: d)
    case Nil
    then show ?case by simp
  next
    case (Cons r rs)
    from idsOk_handle [OF Cons.prems] Cons.IH show ?case by simp
  qed
  then show ?thesis by (simp add: idsOk_def deleteProject_def)
qed

theorem projects_never_empty_witness:
  "idsOk loadData_default \<and> freshIds requestsB loadData_default
   \<and> map pid (projects (run requestsB loadData_default)) = [''u1'']
   \<and> projects (run requestsB loadData_default) \<noteq> []
   \<and> deleteProject (Some ''u1'') (run requestsB loadData_default)
       = (run requestsB loadData_default, Redirect ''/'')"
proof -
  have f: "freshIds requestsB loadData_default"
    by (simp add: requestsB_def loadData_default_def defaultProject_def)
  have m: "map pid (projects (run requestsB loadData_default)) = [''u1'']"
    by (simp add: requestsB_def deleteProject_def createProject_def loadData_default_def
        defaultProject_def)
  then have l: "length (projects (run requestsB loadData_default)) = 1"
    using length_map [of pid "projects (run requestsB loadData_default)"] by simp
  from projects_never_empty [OF idsOk_default f]
  show ?thesis using idsOk_default f m l by simp
qed

end
